theory Spec2Isabelle
  imports Main "HOL-Library.List_Lexorder" "HOL-Library.Sublist"
begin

section \<open>Strings\<close>

text \<open>
  A Python \<^verbatim>\<open>str\<close> is a sequence of Unicode code points, and the positions that
  \<^verbatim>\<open>re\<close> reports count code points. A string is therefore a list of code points
  (natural numbers); \<open>asc\<close> embeds an ASCII literal. The dash variants the source
  names are the code points 8211 (en dash), 8212 (em dash), 12316 (wave dash) and
  65374 (fullwidth tilde).

  Character classes: whitespace is the full set of \<^verbatim>\<open>str.isspace\<close>; digits and
  letters are the ASCII ones, and \<^verbatim>\<open>str.lower\<close> maps the ASCII capitals only. Text whose
  digits and cased letters lie outside ASCII is outside this model.
\<close>

type_synonym ustr = "nat list"

definition asc :: "string \<Rightarrow> ustr" where
  "asc s = map of_char s"

definition is_space :: "nat \<Rightarrow> bool" where
  "is_space c \<longleftrightarrow>
     (9 \<le> c \<and> c \<le> 13) \<or> (28 \<le> c \<and> c \<le> 32) \<or> c = 133 \<or> c = 160 \<or> c = 5760 \<or>
     (8192 \<le> c \<and> c \<le> 8202) \<or> c = 8232 \<or> c = 8233 \<or> c = 8239 \<or> c = 8287 \<or> c = 12288"

definition is_digit :: "nat \<Rightarrow> bool" where
  "is_digit c \<longleftrightarrow> 48 \<le> c \<and> c \<le> 57"

definition is_alpha :: "nat \<Rightarrow> bool" where
  "is_alpha c \<longleftrightarrow> (65 \<le> c \<and> c \<le> 90) \<or> (97 \<le> c \<and> c \<le> 122)"

definition lower_char :: "nat \<Rightarrow> nat" where
  "lower_char c = (if 65 \<le> c \<and> c \<le> 90 then c + 32 else c)"

definition lower :: "ustr \<Rightarrow> ustr" where
  "lower s = map lower_char s"

definition strip :: "ustr \<Rightarrow> ustr" where
  "strip s = rev (dropWhile is_space (rev (dropWhile is_space s)))"

text \<open>\<^verbatim>\<open>s.split(sep)\<close> for a one-character separator: always at least one piece.\<close>

fun split_on :: "nat \<Rightarrow> ustr \<Rightarrow> ustr list" where
  "split_on sep [] = [[]]"
| "split_on sep (c # cs) =
     (if c = sep then [] # split_on sep cs
      else (case split_on sep cs of
              [] \<Rightarrow> [[c]]
            | p # ps \<Rightarrow> (c # p) # ps))"

text \<open>\<^verbatim>\<open>old in s\<close>: \<open>old\<close> occurs in \<open>s\<close> as a contiguous substring.\<close>

fun contains :: "ustr \<Rightarrow> ustr \<Rightarrow> bool" where
  "contains old [] = (old = [])"
| "contains old (c # cs) = (prefix old (c # cs) \<or> contains old cs)"

text \<open>
  \<^verbatim>\<open>s.replace(old, new)\<close> for a non-empty \<open>old\<close>: occurrences are replaced from
  left to right and do not overlap. (Every call in the source has a non-empty \<open>old\<close>.)
\<close>

function replace :: "ustr \<Rightarrow> ustr \<Rightarrow> ustr \<Rightarrow> ustr" where
  "replace old new [] = []"
| "replace old new (c # cs) =
     (if old \<noteq> [] \<and> prefix old (c # cs)
      then new @ replace old new (drop (length old) (c # cs))
      else c # replace old new cs)"
  by pat_completeness auto
termination
  by (relation "measure (\<lambda>(old, new, s). length s)") (auto simp: Suc_le_eq)

section \<open>Errors\<close>

datatype error = ValueError | KeyError

definition ebind :: "error + 'a \<Rightarrow> ('a \<Rightarrow> error + 'b) \<Rightarrow> error + 'b" where
  "ebind x f = (case x of Inl e \<Rightarrow> Inl e | Inr v \<Rightarrow> f v)"

section \<open>Times of day\<close>

text \<open>
  \<^verbatim>\<open>int(s)\<close> on a string: surrounding whitespace is stripped, one sign is allowed, and
  the rest is one or more digits, with single underscores allowed between digits.
  Anything else raises \<^verbatim>\<open>ValueError\<close>. The whitespace \<^verbatim>\<open>int\<close> strips is that of
  \<^verbatim>\<open>str.isspace\<close> without the four separators U+001C to U+001F, which it leaves in
  place and then rejects.
\<close>

definition is_int_space :: "nat \<Rightarrow> bool" where
  "is_int_space c \<longleftrightarrow> is_space c \<and> \<not> (28 \<le> c \<and> c \<le> 31)"

definition int_strip :: "ustr \<Rightarrow> ustr" where
  "int_strip s = rev (dropWhile is_int_space (rev (dropWhile is_int_space s)))"

fun digits_value :: "int \<Rightarrow> bool \<Rightarrow> ustr \<Rightarrow> error + int" where
  "digits_value acc after_digit [] = (if after_digit then Inr acc else Inl ValueError)"
| "digits_value acc after_digit (c # cs) =
     (if is_digit c then digits_value (acc * 10 + int (c - 48)) True cs
      else if c = 95 \<and> after_digit then digits_value acc False cs
      else Inl ValueError)"

definition py_int :: "ustr \<Rightarrow> error + int" where
  "py_int s =
     (case int_strip s of
        [] \<Rightarrow> Inl ValueError
      | c # cs \<Rightarrow>
          if c = 43 then digits_value 0 False cs
          else if c = 45 then ebind (digits_value 0 False cs) (\<lambda>v. Inr (- v))
          else digits_value 0 False (c # cs))"

text \<open>
  \<^verbatim>\<open>_to_minutes\<close>: the unpacking \<^verbatim>\<open>h, m = ...\<close> raises unless the split gives exactly
  two pieces; hour 24 becomes 0.
\<close>

definition to_minutes :: "ustr \<Rightarrow> error + int" where
  "to_minutes t =
     (case split_on 58 t of
        [hs, ms] \<Rightarrow>
          ebind (py_int hs) (\<lambda>h.
          ebind (py_int ms) (\<lambda>m.
            Inr ((if h = 24 then 0 else h) * 60 + m)))
      | _ \<Rightarrow> Inl ValueError)"

definition crosses_midnight_of :: "ustr \<Rightarrow> ustr \<Rightarrow> error + bool" where
  "crosses_midnight_of s e =
     ebind (to_minutes e) (\<lambda>em. ebind (to_minutes s) (\<lambda>sm. Inr (em \<le> sm)))"

section \<open>Blocks and the open-now evaluation\<close>

text \<open>
  The last-order dictionary of a block has at most the keys \<^verbatim>\<open>generic\<close>, \<^verbatim>\<open>food\<close>
  and \<^verbatim>\<open>drinks\<close>; a field is \<open>None\<close> when the key is absent. The key
  \<^verbatim>\<open>carried_from_prev\<close> is absent on a block of the schedule and \<^verbatim>\<open>True\<close> on a
  copy carried over from the previous day.
\<close>

record lo_dict =
  generic :: "ustr option"
  food :: "ustr option"
  drinks :: "ustr option"

record block =
  b_open :: ustr
  b_close :: ustr
  crosses_midnight :: bool
  last_order :: "lo_dict option"
  carried_from_prev :: bool

datatype day_blocks = Closed | Blocks "block list"

record segment =
  seg_start :: ustr
  seg_end :: ustr
  seg_last_order :: "lo_dict option"

record open_result =
  segment :: segment
  closes_in_min :: "int option"
  lo_in_min :: "int option"
  res_crosses_midnight :: bool

text \<open>
  The three shapes of the result dictionary: status closed with no other key, status
  closed with \<^verbatim>\<open>opens_in_min\<close> (possibly \<^verbatim>\<open>None\<close>), and status open.
\<close>

datatype open_status =
  StatusClosed
| StatusClosedOpens "int option"
| StatusOpen open_result

record local_time =
  hour :: int
  minute :: int

definition lo_is_empty :: "lo_dict \<Rightarrow> bool" where
  "lo_is_empty lo \<longleftrightarrow> generic lo = None \<and> food lo = None \<and> drinks lo = None"

text \<open>The truthy last-order dictionary of a block, if any (\<^verbatim>\<open>if lo:\<close>, \<^verbatim>\<open>lo or None\<close>).\<close>

definition lo_truthy :: "lo_dict option \<Rightarrow> lo_dict option" where
  "lo_truthy lo =
     (case lo of None \<Rightarrow> None | Some d \<Rightarrow> if lo_is_empty d then None else Some d)"

text \<open>The loop over \<^verbatim>\<open>["generic","food","drinks"]\<close> that collects the present, non-empty times.\<close>

fun lo_times_of :: "ustr option list \<Rightarrow> error + int list" where
  "lo_times_of [] = Inr []"
| "lo_times_of (t # ts) =
     (case t of
        None \<Rightarrow> lo_times_of ts
      | Some s \<Rightarrow>
          if s = [] then lo_times_of ts
          else ebind (to_minutes s) (\<lambda>v. ebind (lo_times_of ts) (\<lambda>vs. Inr (v # vs))))"

definition min_list_int :: "int \<Rightarrow> int list \<Rightarrow> int" where
  "min_list_int v vs = fold min vs v"

definition lo_in_of :: "int \<Rightarrow> bool \<Rightarrow> int \<Rightarrow> int \<Rightarrow> int \<Rightarrow> int option" where
  "lo_in_of lo_t crosses start end now_min =
     (if \<not> crosses then
        (if now_min \<le> lo_t \<and> lo_t \<le> end then Some (max (lo_t - now_min) 0) else None)
      else if now_min \<ge> start then
        (if lo_t \<ge> start then Some (max (lo_t - now_min) 0)
         else Some ((24 * 60 - now_min) + lo_t))
      else
        (if lo_t \<ge> now_min then Some (max (lo_t - now_min) 0) else None))"

definition calc_lo_in :: "lo_dict option \<Rightarrow> bool \<Rightarrow> int \<Rightarrow> int \<Rightarrow> int \<Rightarrow> error + int option" where
  "calc_lo_in lo crosses start end now_min =
     (case lo_truthy lo of
        None \<Rightarrow> Inr None
      | Some d \<Rightarrow>
          ebind (lo_times_of [generic d, food d, drinks d]) (\<lambda>lo_times.
            case lo_times of
              [] \<Rightarrow> Inr None
            | v # vs \<Rightarrow> Inr (lo_in_of (min_list_int v vs) crosses start end now_min)))"

definition in_window_of :: "bool \<Rightarrow> int \<Rightarrow> int \<Rightarrow> int \<Rightarrow> bool" where
  "in_window_of crosses start end now_min =
     (if \<not> crosses then start \<le> now_min \<and> now_min < end
      else now_min \<ge> start \<or> now_min < end)"

definition closes_in_of :: "bool \<Rightarrow> int \<Rightarrow> int \<Rightarrow> int \<Rightarrow> int" where
  "closes_in_of crosses start end now_min =
     (if \<not> crosses then end - now_min
      else if now_min \<ge> start then (24 * 60 - now_min) + end else end - now_min)"

text \<open>The first loop of \<^verbatim>\<open>calc_open_now\<close>: return at the first block whose window holds now.\<close>

fun find_open :: "block list \<Rightarrow> int \<Rightarrow> error + open_result option" where
  "find_open [] now_min = Inr None"
| "find_open (b # bs) now_min =
     ebind (to_minutes (b_open b)) (\<lambda>start.
     ebind (to_minutes (b_close b)) (\<lambda>end.
       if in_window_of (crosses_midnight b) start end now_min then
         ebind (calc_lo_in (last_order b) (crosses_midnight b) start end now_min) (\<lambda>lo_in.
           Inr (Some \<lparr>segment = \<lparr>seg_start = b_open b, seg_end = b_close b,
                                  seg_last_order = lo_truthy (last_order b)\<rparr>,
                      closes_in_min = Some (closes_in_of (crosses_midnight b) start end now_min),
                      lo_in_min = lo_in,
                      res_crosses_midnight = crosses_midnight b\<rparr>))
       else find_open bs now_min))"

text \<open>The second loop: the first block, not carried, that opens after now.\<close>

fun first_future :: "block list \<Rightarrow> int \<Rightarrow> error + int option" where
  "first_future [] now_min = Inr None"
| "first_future (b # bs) now_min =
     ebind (to_minutes (b_open b)) (\<lambda>st.
       if carried_from_prev b then first_future bs now_min
       else if st > now_min then Inr (Some (st - now_min))
       else first_future bs now_min)"

definition calc_open_now :: "day_blocks \<Rightarrow> local_time \<Rightarrow> error + open_status" where
  "calc_open_now blocks_for_day now_local =
     (case blocks_for_day of
        Closed \<Rightarrow> Inr StatusClosed
      | Blocks [] \<Rightarrow> Inr StatusClosed
      | Blocks bs \<Rightarrow>
          ebind (find_open bs (hour now_local * 60 + minute now_local)) (\<lambda>found.
            case found of
              Some r \<Rightarrow> Inr (StatusOpen r)
            | None \<Rightarrow>
                ebind (first_future bs (hour now_local * 60 + minute now_local)) (\<lambda>ff.
                  Inr (StatusClosedOpens ff))))"

text \<open>
  Every last-order time that \<^verbatim>\<open>calc_open_now\<close> would read from the block parses
  (the times a block gets from the extractor are regex captures \<^verbatim>\<open>\\d{1,2}:\\d{2}\<close>).
\<close>

definition lo_times_ok :: "lo_dict option \<Rightarrow> bool" where
  "lo_times_ok lo =
     (case lo_truthy lo of
        None \<Rightarrow> True
      | Some d \<Rightarrow> (case lo_times_of [generic d, food d, drinks d] of
                     Inr _ \<Rightarrow> True | Inl _ \<Rightarrow> False))"

text \<open>A concrete midnight-crossing block, an instant and the result there.\<close>

definition late_block :: block where
  "late_block = \<lparr>b_open = asc ''22:00'', b_close = asc ''02:00'', crosses_midnight = True,
                 last_order = None, carried_from_prev = False\<rparr>"

definition eleven_pm :: local_time where
  "eleven_pm = \<lparr>hour = 23, minute = 0\<rparr>"

definition late_result :: open_result where
  "late_result = \<lparr>segment = \<lparr>seg_start = asc ''22:00'', seg_end = asc ''02:00'',
                                   seg_last_order = None\<rparr>,
                      closes_in_min = Some 180, lo_in_min = None,
                      res_crosses_midnight = True\<rparr>"

subsection \<open>The next opening, as the spec words it and as the code computes it\<close>

text \<open>
  \<open>parsed_times bs ts\<close>: the open and close strings of the blocks \<open>bs\<close> parse to the
  minute pairs \<open>ts\<close>. \<open>none_in_window\<close>: no block's window holds now.
  \<open>future_opens\<close> lists, in list order, \<open>open - now\<close> for the blocks that are not carried
  and open strictly after now. The spec takes the minimum of that list
  (\<open>spec_opens_in_min\<close>, following the spec's words); \<open>first_opens_in_min\<close> takes its head.
\<close>

definition parsed_times :: "block list \<Rightarrow> (int \<times> int) list \<Rightarrow> bool" where
  "parsed_times bs ts =
     list_all2 (\<lambda>b (st, en). to_minutes (b_open b) = Inr st \<and> to_minutes (b_close b) = Inr en) bs ts"

definition none_in_window :: "block list \<Rightarrow> (int \<times> int) list \<Rightarrow> int \<Rightarrow> bool" where
  "none_in_window bs ts now_min =
     list_all2 (\<lambda>b (st, en). \<not> in_window_of (crosses_midnight b) st en now_min) bs ts"

definition future_opens :: "block list \<Rightarrow> (int \<times> int) list \<Rightarrow> int \<Rightarrow> int list" where
  "future_opens bs ts now_min =
     map (\<lambda>(b, st, en). st - now_min)
       (filter (\<lambda>(b, st, en). \<not> carried_from_prev b \<and> st > now_min) (zip bs ts))"

definition spec_opens_in_min :: "block list \<Rightarrow> (int \<times> int) list \<Rightarrow> int \<Rightarrow> int option" where
  "spec_opens_in_min bs ts now_min =
     (if future_opens bs ts now_min = [] then None
      else Some (Min (set (future_opens bs ts now_min))))"

definition first_opens_in_min :: "block list \<Rightarrow> (int \<times> int) list \<Rightarrow> int \<Rightarrow> int option" where
  "first_opens_in_min bs ts now_min =
     (case future_opens bs ts now_min of [] \<Rightarrow> None | c # _ \<Rightarrow> Some c)"

definition dinner_block :: block where
  "dinner_block = \<lparr>b_open = asc ''18:00'', b_close = asc ''22:00'', crosses_midnight = False,
                   last_order = None, carried_from_prev = False\<rparr>"

definition lunch_block :: block where
  "lunch_block = \<lparr>b_open = asc ''11:00'', b_close = asc ''14:00'', crosses_midnight = False,
                   last_order = None, carried_from_prev = False\<rparr>"

definition ten_am :: local_time where
  "ten_am = \<lparr>hour = 10, minute = 0\<rparr>"

text \<open>A midnight-crossing block with a generic last order at 22:30, and its result at 23:00.\<close>

definition late_lo_block :: block where
  "late_lo_block = \<lparr>b_open = asc ''22:00'', b_close = asc ''02:00'', crosses_midnight = True,
                    last_order = Some \<lparr>generic = Some (asc ''22:30''), food = None, drinks = None\<rparr>,
                    carried_from_prev = False\<rparr>"

definition late_lo_result :: open_result where
  "late_lo_result = \<lparr>segment = \<lparr>seg_start = asc ''22:00'', seg_end = asc ''02:00'',
                       seg_last_order = Some \<lparr>generic = Some (asc ''22:30''), food = None, drinks = None\<rparr>\<rparr>,
                     closes_in_min = Some 180, lo_in_min = Some 0,
                     res_crosses_midnight = True\<rparr>"

definition half_past_midnight :: local_time where
  "half_past_midnight = \<lparr>hour = 0, minute = 30\<rparr>"

definition late_lo_result_after :: open_result where
  "late_lo_result_after =
     \<lparr>segment = \<lparr>seg_start = asc ''22:00'', seg_end = asc ''02:00'',
                   seg_last_order = Some \<lparr>generic = Some (asc ''22:30''), food = None,
                                           drinks = None\<rparr>\<rparr>,
      closes_in_min = Some 90, lo_in_min = Some 1320,
      res_crosses_midnight = True\<rparr>"

section \<open>Regular expressions\<close>

text \<open>
  The fragment of \<^verbatim>\<open>re\<close> that the source's patterns use: the empty pattern, a character class, sequence,
  alternation, the greedy \<^verbatim>\<open>?\<close>, the greedy \<^verbatim>\<open>*\<close> on a character class, and a capture
  group. \<open>run\<close> lists the ways a pattern can match at the head of the remaining text in
  the order in which the backtracking matcher of \<^verbatim>\<open>re\<close> tries them (an earlier
  alternative first, a longer repetition first); the match \<^verbatim>\<open>re\<close> reports is the first
  of the list. A state is the absolute position, the remaining text and the groups
  captured so far.
\<close>

datatype rx =
  Eps
| Cls "nat \<Rightarrow> bool"
| Cat rx rx
| Alt rx rx
| Opt rx
| Many "nat \<Rightarrow> bool"
| Grp string rx

type_synonym caps = "(string \<times> ustr) list"
type_synonym mstate = "int \<times> ustr \<times> caps"

fun many :: "(nat \<Rightarrow> bool) \<Rightarrow> mstate \<Rightarrow> mstate list" where
  "many p (pos, [], c) = [(pos, [], c)]"
| "many p (pos, x # xs, c) =
     (if p x then many p (pos + 1, xs, c) @ [(pos, x # xs, c)] else [(pos, x # xs, c)])"

fun run :: "rx \<Rightarrow> mstate \<Rightarrow> mstate list" where
  "run Eps st = [st]"
| "run (Cls p) (pos, s, c) =
     (case s of [] \<Rightarrow> [] | x # xs \<Rightarrow> if p x then [(pos + 1, xs, c)] else [])"
| "run (Cat a b) st = concat (map (run b) (run a st))"
| "run (Alt a b) st = run a st @ run b st"
| "run (Opt a) st = run a st @ [st]"
| "run (Many p) st = many p st"
| "run (Grp g a) (pos, s, c) =
     map (\<lambda>(pos', s', c'). (pos', s', (g, take (nat (pos' - pos)) s) # c')) (run a (pos, s, c))"

text \<open>A literal character, a literal character under \<^verbatim>\<open>(?i)\<close>, and a literal word under \<^verbatim>\<open>(?i)\<close>.\<close>

definition chr :: "nat \<Rightarrow> rx" where
  "chr k = Cls (\<lambda>x. x = k)"

definition chr_i :: "nat \<Rightarrow> rx" where
  "chr_i k = Cls (\<lambda>x. lower_char x = lower_char k)"

fun word_i :: "ustr \<Rightarrow> rx" where
  "word_i [] = Eps"
| "word_i (k # ks) = Cat (chr_i k) (word_i ks)"

text \<open>
  \<^verbatim>\<open>finditer\<close>: the matches from left to right, each search starting where the last match
  ended. (After an empty match the search moves on by one character; no pattern of the
  source matches the empty string.)
\<close>

function finditer :: "rx \<Rightarrow> int \<Rightarrow> ustr \<Rightarrow> (int \<times> int \<times> caps) list" where
  "finditer r pos [] =
     (case run r (pos, [], []) of [] \<Rightarrow> [] | (e, rest, c) # _ \<Rightarrow> [(pos, e, c)])"
| "finditer r pos (x # xs) =
     (case run r (pos, x # xs, []) of
        [] \<Rightarrow> finditer r (pos + 1) xs
      | (e, rest, c) # _ \<Rightarrow>
          if length rest < length (x # xs) then (pos, e, c) # finditer r e rest
          else (pos, e, c) # finditer r (pos + 1) xs)"
  by pat_completeness auto
termination
  by (relation "measure (\<lambda>(r, pos, s). length s)") auto

definition search :: "rx \<Rightarrow> ustr \<Rightarrow> bool" where
  "search r s \<longleftrightarrow> finditer r 0 s \<noteq> []"

definition rmatch :: "rx \<Rightarrow> ustr \<Rightarrow> caps option" where
  "rmatch r s = (case run r (0, s, []) of [] \<Rightarrow> None | (e, rest, c) # _ \<Rightarrow> Some c)"

fun sub_pieces :: "int \<Rightarrow> (int \<times> int \<times> caps) list \<Rightarrow> ustr \<Rightarrow> ustr \<Rightarrow> ustr" where
  "sub_pieces pos [] repl s = drop (nat pos) s"
| "sub_pieces pos ((a, b, c) # ms) repl s =
     take (nat (a - pos)) (drop (nat pos) s) @ repl @ sub_pieces b ms repl s"

definition re_sub :: "rx \<Rightarrow> ustr \<Rightarrow> ustr \<Rightarrow> ustr" where
  "re_sub r repl s = sub_pieces 0 (finditer r 0 s) repl s"

section \<open>The time-range extractor\<close>

definition digit :: rx where
  "digit = Cls is_digit"

definition time_rx :: rx where
  "time_rx = Cat (Cat digit (Opt digit)) (Cat (chr 58) (Cat digit digit))"

definition RANGE_RE :: rx where
  "RANGE_RE =
     Cat (Grp ''s'' time_rx)
       (Cat (Many is_space)
         (Cat (Cls (\<lambda>x. x = 45 \<or> x = 8211 \<or> x = 126))
           (Cat (Many is_space) (Grp ''e'' time_rx))))"

definition LO_RE :: rx where
  "LO_RE =
     Cat (chr_i 76) (Cat (Opt (chr 46)) (Cat (Many is_space) (Cat (chr_i 79) (Cat (Opt (chr 46))
       (Cat (Many is_space)
         (Cat (Opt (Cat (Grp ''1'' (Alt (word_i (asc ''Food''))
                                   (Alt (Cat (word_i (asc ''Food'')) (Opt (chr_i 115)))
                                   (Alt (word_i (asc ''Drink''))
                                        (Cat (word_i (asc ''Drink'')) (Opt (chr_i 115)))))))
                        (Many is_space)))
              (Grp ''t'' time_rx)))))))"

definition norm :: "ustr \<Rightarrow> ustr" where
  "norm s =
     re_sub (Cat (chr_i 76) (Cat (Opt (chr 46)) (Cat (Many is_space) (Cat (Opt (chr 46))
               (Cat (chr_i 79) (Opt (chr 46)))))))
       (asc ''LO'')
       (re_sub (Cat (Cls is_space) (Many is_space)) (asc '' '')
          (strip (replace (asc ''to'') (asc ''-'')
            (replace [65374] (asc ''-'')
              (replace [8212] (asc ''-'')
                (replace [8211] (asc ''-'')
                  (replace [12316] (asc ''-'') s)))))))"

text \<open>The two list comprehensions over the matches.\<close>

definition the_group :: "caps \<Rightarrow> string \<Rightarrow> ustr" where
  "the_group c g = (case map_of c g of None \<Rightarrow> [] | Some v \<Rightarrow> v)"

definition ranges_of :: "ustr \<Rightarrow> (int \<times> int \<times> ustr \<times> ustr) list" where
  "ranges_of text =
     map (\<lambda>(a, b, c). (a, b, the_group c ''s'', the_group c ''e'')) (finditer RANGE_RE 0 text)"

definition los_of :: "ustr \<Rightarrow> (int \<times> ustr option \<times> ustr) list" where
  "los_of text =
     map (\<lambda>(a, b, c). (a, (case map_of c ''1'' of None \<Rightarrow> None
                             | Some k \<Rightarrow> if k = [] then None else Some (lower k)),
                       the_group c ''t''))
       (finditer LO_RE 0 text)"

text \<open>
  \<^verbatim>\<open>rs <= lo_pos < next_range_start\<close>, where the next start is infinite (\<open>None\<close>) for the
  last range.
\<close>

definition in_window :: "int \<Rightarrow> int option \<Rightarrow> int \<Rightarrow> bool" where
  "in_window rs nxt lo_pos \<longleftrightarrow>
     rs \<le> lo_pos \<and> (case nxt of None \<Rightarrow> True | Some n \<Rightarrow> lo_pos < n)"

text \<open>The inner loop: the markers of one window, written into the dictionary in order.\<close>

definition lo_empty :: lo_dict where
  "lo_empty = \<lparr>generic = None, food = None, drinks = None\<rparr>"

fun assign_los :: "int \<Rightarrow> int option \<Rightarrow> (int \<times> ustr option \<times> ustr) list \<Rightarrow> lo_dict \<Rightarrow> lo_dict" where
  "assign_los rs nxt [] d = d"
| "assign_los rs nxt ((lo_pos, lo_kind, lo_time) # los) d =
     assign_los rs nxt los
       (if in_window rs nxt lo_pos then
          (case lo_kind of
             None \<Rightarrow> d\<lparr>generic := Some lo_time\<rparr>
           | Some k \<Rightarrow>
               if contains (asc ''drink'') k then d\<lparr>drinks := Some lo_time\<rparr>
               else d\<lparr>food := Some lo_time\<rparr>)
        else d)"

text \<open>The dictionary of one block; an empty dictionary becomes \<^verbatim>\<open>None\<close>.\<close>

definition block_last_order ::
    "int \<Rightarrow> int option \<Rightarrow> (int \<times> ustr option \<times> ustr) list \<Rightarrow> lo_dict option" where
  "block_last_order rs nxt los =
     (if lo_is_empty (assign_los rs nxt los lo_empty) then None
      else Some (assign_los rs nxt los lo_empty))"

text \<open>The outer loop over the ranges; the start of the next range bounds the window.\<close>

fun blocks_of :: "(int \<times> int \<times> ustr \<times> ustr) list \<Rightarrow> (int \<times> ustr option \<times> ustr) list
    \<Rightarrow> error + block list" where
  "blocks_of [] los = Inr []"
| "blocks_of ((rs, re, s, e) # ranges) los =
     ebind (crosses_midnight_of s e) (\<lambda>crosses.
     ebind (blocks_of ranges los) (\<lambda>blocks.
       Inr (\<lparr>b_open = s, b_close = e, crosses_midnight = crosses,
             last_order =
               block_last_order rs (case ranges of [] \<Rightarrow> None | (n, _) # _ \<Rightarrow> Some n) los,
             carried_from_prev = False\<rparr> # blocks)))"

definition parse_time_ranges :: "ustr \<Rightarrow> error + block list" where
  "parse_time_ranges dtl_text = blocks_of (ranges_of (norm dtl_text)) (los_of (norm dtl_text))"

text \<open>
  The markers of one window as the spec words them (\<open>markers_in\<close>): a marker belongs
  to the window \<open>(rs, nxt)\<close> when its position is at or after \<open>rs\<close> and before the next
  range's start \<open>nxt\<close>; its kind is generic without a qualifier, drinks
  when the qualifier contains \<^verbatim>\<open>drink\<close>, food otherwise; within a window the latest
  marker of a kind wins; a window without markers gives no dictionary.
\<close>

datatype lo_kind = Generic | Food | Drinks

definition kind_of :: "ustr option \<Rightarrow> lo_kind" where
  "kind_of k =
     (case k of None \<Rightarrow> Generic
      | Some q \<Rightarrow> if contains (asc ''drink'') q then Drinks else Food)"

definition markers_in ::
    "int \<times> int option \<Rightarrow> (int \<times> ustr option \<times> ustr) list \<Rightarrow> (int \<times> ustr option \<times> ustr) list" where
  "markers_in w los = filter (\<lambda>(p, k, t). in_window (fst w) (snd w) p) los"

fun last_time :: "lo_kind \<Rightarrow> (int \<times> ustr option \<times> ustr) list \<Rightarrow> ustr option" where
  "last_time K [] = None"
| "last_time K ((p, k, t) # ms) =
     (case last_time K ms of
        Some t' \<Rightarrow> Some t'
      | None \<Rightarrow> if kind_of k = K then Some t else None)"

definition window_last_order :: "(int \<times> ustr option \<times> ustr) list \<Rightarrow> lo_dict option" where
  "window_last_order ms =
     (if ms = [] then None
      else Some \<lparr>generic = last_time Generic ms, food = last_time Food ms,
                 drinks = last_time Drinks ms\<rparr>)"

fun windows :: "(int \<times> int \<times> ustr \<times> ustr) list \<Rightarrow> (int \<times> int option) list" where
  "windows [] = []"
| "windows [(rs, re, s, e)] = [(rs, None)]"
| "windows ((rs, re, s, e) # (n, r') # ranges) = (rs, Some n) # windows ((n, r') # ranges)"

definition lo_example :: ustr where
  "lo_example = asc ''11:30-14:00 (LO 13:30) 17:30-22:00 (LO Food 21:00 / LO Drink 21:30)''"

section \<open>The day-title normalizer\<close>

definition DAY_ORDER :: "ustr list" where
  "DAY_ORDER = map asc [''mon'', ''tue'', ''wed'', ''thu'', ''fri'', ''sat'', ''sun'']"

definition DAY_ALIASES :: "(ustr \<times> ustr) list" where
  "DAY_ALIASES = map (\<lambda>(k, v). (asc k, asc v))
     [(''mon'', ''mon''), (''monday'', ''mon''),
      (''tue'', ''tue''), (''tuesday'', ''tue''),
      (''wed'', ''wed''), (''wednesday'', ''wed''),
      (''thu'', ''thu''), (''thursday'', ''thu''),
      (''fri'', ''fri''), (''friday'', ''fri''),
      (''sat'', ''sat''), (''saturday'', ''sat''),
      (''sun'', ''sun''), (''sunday'', ''sun'')]"

definition SPECIAL_KEYS :: "(ustr \<times> ustr) list" where
  "SPECIAL_KEYS = map (\<lambda>(k, v). (asc k, asc v))
     [(''public holiday'', ''public_holiday''),
      (''day before public holiday'', ''day_before_public_holiday''),
      (''day after public holiday'', ''day_after_public_holiday'')]"

text \<open>
  The bounded repetition \<^verbatim>\<open>r{m,n}\<close>, greedy: \<open>m\<close> copies, then up to \<open>n - m\<close> more, one
  more being tried before none.
\<close>

fun exactly :: "nat \<Rightarrow> rx \<Rightarrow> rx" where
  "exactly 0 r = Eps"
| "exactly (Suc n) r = Cat r (exactly n r)"

fun at_most :: "nat \<Rightarrow> rx \<Rightarrow> rx" where
  "at_most 0 r = Eps"
| "at_most (Suc n) r = Opt (Cat r (at_most n r))"

definition rep :: "nat \<Rightarrow> nat \<Rightarrow> rx \<Rightarrow> rx" where
  "rep m n r = Cat (exactly m r) (at_most (n - m) r)"

text \<open>\<^verbatim>\<open>([A-Za-z]{3,9})\s*-\s*([A-Za-z]{3,9})\<close>\<close>

definition DAY_RANGE_RE :: rx where
  "DAY_RANGE_RE =
     Cat (Grp ''1'' (rep 3 9 (Cls is_alpha)))
       (Cat (Many is_space)
         (Cat (chr 45)
           (Cat (Many is_space) (Grp ''2'' (rep 3 9 (Cls is_alpha))))))"

text \<open>
  The dictionary \<^verbatim>\<open>special\<close>: the special tags set to \<^verbatim>\<open>True\<close>, and under
  \<^verbatim>\<open>raw_titles\<close> the set of opaque chunks, absent until the first one is added.
\<close>

record special =
  sp_flags :: "ustr set"
  raw_titles :: "ustr set option"

definition special_empty :: special where
  "special_empty = \<lparr>sp_flags = {}, raw_titles = None\<rparr>"

text \<open>\<^verbatim>\<open>xs.index(x)\<close>, called only after \<^verbatim>\<open>x in xs\<close> has been tested.\<close>

fun index_of :: "'a list \<Rightarrow> 'a \<Rightarrow> nat" where
  "index_of [] x = 0"
| "index_of (y # ys) x = (if x = y then 0 else Suc (index_of ys x))"

text \<open>\<^verbatim>\<open>DAY_ALIASES.get(a, a[:3])\<close>\<close>

definition resolve_day :: "ustr \<Rightarrow> ustr" where
  "resolve_day a = (case map_of DAY_ALIASES a of Some d \<Rightarrow> d | None \<Rightarrow> take 3 a)"

text \<open>The two slices: \<^verbatim>\<open>DAY_ORDER[ia:ib+1]\<close>, or \<^verbatim>\<open>DAY_ORDER[ia:] + DAY_ORDER[:ib+1]\<close>.\<close>

definition expand_range :: "nat \<Rightarrow> nat \<Rightarrow> ustr list" where
  "expand_range ia ib =
     (if ia \<le> ib then take (ib + 1 - ia) (drop ia DAY_ORDER)
      else drop ia DAY_ORDER @ take (ib + 1) DAY_ORDER)"

text \<open>The body of the loop over the chunks.\<close>

definition chunk_step :: "ustr \<Rightarrow> ustr list \<times> special \<Rightarrow> ustr list \<times> special" where
  "chunk_step c st =
     (case map_of DAY_ALIASES (lower c) of
        Some d \<Rightarrow> (fst st @ [d], snd st)
      | None \<Rightarrow>
         (case map_of SPECIAL_KEYS (lower c) of
            Some k \<Rightarrow> (fst st, (snd st)\<lparr>sp_flags := insert k (sp_flags (snd st))\<rparr>)
          | None \<Rightarrow>
             (case rmatch DAY_RANGE_RE
                     (replace [8212] (asc ''-'')
                       (replace [8211] (asc ''-'')
                         (replace (asc '' to '') (asc ''-'') (lower c)))) of
                Some m \<Rightarrow>
                  if resolve_day (lower (the_group m ''1'')) \<in> set DAY_ORDER
                     \<and> resolve_day (lower (the_group m ''2'')) \<in> set DAY_ORDER
                  then (fst st @ expand_range
                          (index_of DAY_ORDER (resolve_day (lower (the_group m ''1''))))
                          (index_of DAY_ORDER (resolve_day (lower (the_group m ''2'')))),
                        snd st)
                  else st
              | None \<Rightarrow>
                  (fst st,
                   (snd st)\<lparr>raw_titles :=
                     Some (insert c (case raw_titles (snd st) of None \<Rightarrow> {} | Some S \<Rightarrow> S))\<rparr>))))"

definition split_and_normalize_days :: "ustr \<Rightarrow> ustr list \<times> special" where
  "split_and_normalize_days title =
     (if title = [] then ([], special_empty)
      else fold chunk_step (map strip (split_on 44 title)) ([], special_empty))"

section \<open>The schedule builder\<close>

text \<open>An entry of \<^verbatim>\<open>hours_raw\<close>: a dictionary read under these five keys.\<close>

record raw_entry =
  title :: "ustr option"
  list_title :: "ustr option"
  dtl :: "ustr option"
  dtl_text :: "ustr option"
  dtlText :: "ustr option"

text \<open>\<^verbatim>\<open>a or b or ... or ""\<close> on optional strings.\<close>

fun first_truthy :: "ustr option list \<Rightarrow> ustr" where
  "first_truthy [] = []"
| "first_truthy (x # xs) =
     (case x of None \<Rightarrow> first_truthy xs
      | Some s \<Rightarrow> if s = [] then first_truthy xs else s)"

definition entry_title :: "raw_entry \<Rightarrow> ustr" where
  "entry_title entry = first_truthy [title entry, list_title entry]"

definition entry_dtl :: "raw_entry \<Rightarrow> ustr" where
  "entry_dtl entry = first_truthy [dtl entry, dtl_text entry, dtlText entry]"

type_synonym weekly = "ustr \<rightharpoonup> day_blocks"

record exceptions =
  policies :: "ustr list"
  tagged :: "ustr \<rightharpoonup> block list"

definition weekly_init :: weekly where
  "weekly_init = map_of (map (\<lambda>d. (d, Blocks [])) DAY_ORDER)"

definition exceptions_init :: exceptions where
  "exceptions_init = \<lparr>policies = [], tagged = Map.empty\<rparr>"

definition explicit_closed :: "ustr \<Rightarrow> bool" where
  "explicit_closed d \<longleftrightarrow>
     lower (strip d) = asc ''closed''
     \<or> (contains (asc ''closed'') (lower (strip d)) \<and> \<not> search RANGE_RE (lower (strip d)))"

text \<open>\<^verbatim>\<open>for day in days: weekly[day] = "closed"\<close>\<close>

fun close_days :: "ustr list \<Rightarrow> weekly \<Rightarrow> weekly" where
  "close_days [] w = w"
| "close_days (day # days) w = close_days days (w(day \<mapsto> Closed))"

text \<open>
  \<^verbatim>\<open>for day in days: if weekly.get(day) != "closed": weekly[day].extend(blocks)\<close>; a day
  that is no key of \<^verbatim>\<open>weekly\<close> raises \<^verbatim>\<open>KeyError\<close>.
\<close>

fun extend_days :: "ustr list \<Rightarrow> block list \<Rightarrow> weekly \<Rightarrow> error + weekly" where
  "extend_days [] blocks w = Inr w"
| "extend_days (day # days) blocks w =
     (case w day of
        Some Closed \<Rightarrow> extend_days days blocks w
      | Some (Blocks bs) \<Rightarrow> extend_days days blocks (w(day \<mapsto> Blocks (bs @ blocks)))
      | None \<Rightarrow> Inl KeyError)"

text \<open>\<^verbatim>\<open>for sk in SPECIAL_KEYS.values(): if sk in special: exceptions.setdefault(sk, []).extend(blocks)\<close>\<close>

fun add_special :: "ustr list \<Rightarrow> special \<Rightarrow> block list \<Rightarrow> (ustr \<rightharpoonup> block list)
    \<Rightarrow> (ustr \<rightharpoonup> block list)" where
  "add_special [] sp blocks t = t"
| "add_special (sk # sks) sp blocks t =
     add_special sks sp blocks
       (if sk \<in> sp_flags sp
        then t(sk \<mapsto> (case t sk of None \<Rightarrow> [] | Some bs \<Rightarrow> bs) @ blocks)
        else t)"

text \<open>\<^verbatim>\<open>sorted(list(special["raw_titles"]))\<close> when the key is present.\<close>

definition opaque_titles :: "special \<Rightarrow> ustr list" where
  "opaque_titles sp = (case raw_titles sp of None \<Rightarrow> [] | Some S \<Rightarrow> sorted_list_of_set S)"

text \<open>The body of the loop over the entries.\<close>

definition entry_step :: "raw_entry \<Rightarrow> weekly \<times> exceptions \<Rightarrow> error + weekly \<times> exceptions" where
  "entry_step entry st =
     (if explicit_closed (entry_dtl entry)
      then Inr (close_days (fst (split_and_normalize_days (entry_title entry))) (fst st), snd st)
      else
        ebind (parse_time_ranges (entry_dtl entry)) (\<lambda>blocks.
        ebind (extend_days (fst (split_and_normalize_days (entry_title entry))) blocks (fst st))
          (\<lambda>w.
            Inr (w,
                 \<lparr>policies = policies (snd st)
                     @ opaque_titles (snd (split_and_normalize_days (entry_title entry))),
                  tagged = add_special (map snd SPECIAL_KEYS)
                     (snd (split_and_normalize_days (entry_title entry))) blocks
                     (tagged (snd st))\<rparr>))))"

fun run_entries :: "raw_entry list \<Rightarrow> weekly \<times> exceptions \<Rightarrow> error + weekly \<times> exceptions" where
  "run_entries [] st = Inr st"
| "run_entries (entry # entries) st = ebind (entry_step entry st) (run_entries entries)"

text \<open>
  \<^verbatim>\<open>notes_structured\<close>: \<open>None\<close> when it is not a dictionary, else its \<^verbatim>\<open>closed_on\<close>
  (absent or a string).
\<close>

record structured_notes =
  closed_on :: "ustr option"

definition add_closed_on :: "structured_notes option \<Rightarrow> exceptions \<Rightarrow> exceptions" where
  "add_closed_on notes_structured ex =
     (case notes_structured of
        None \<Rightarrow> ex
      | Some n \<Rightarrow>
          (case closed_on n of
             None \<Rightarrow> ex
           | Some c \<Rightarrow> if c = [] then ex else ex\<lparr>policies := policies ex @ [c]\<rparr>))"

definition build_schedule_fixed ::
    "raw_entry list \<Rightarrow> structured_notes option \<Rightarrow> error + weekly \<times> exceptions" where
  "build_schedule_fixed hours_raw notes_structured =
     (if hours_raw = [] then Inr (weekly_init, exceptions_init)
      else ebind (run_entries hours_raw (weekly_init, exceptions_init)) (\<lambda>st.
             Inr (fst st, add_closed_on notes_structured (snd st))))"

text \<open>Reading one day, and the policies, off the result.\<close>

definition result_day :: "error + weekly \<times> exceptions \<Rightarrow> ustr \<Rightarrow> error + day_blocks option" where
  "result_day r d = (case r of Inl e \<Rightarrow> Inl e | Inr st \<Rightarrow> Inr (fst st d))"

definition result_policies :: "error + weekly \<times> exceptions \<Rightarrow> error + ustr list" where
  "result_policies r = (case r of Inl e \<Rightarrow> Inl e | Inr st \<Rightarrow> Inr (policies (snd st)))"

definition entry_of :: "string \<Rightarrow> string \<Rightarrow> raw_entry" where
  "entry_of t d = \<lparr>title = Some (asc t), list_title = None, dtl = Some (asc d),
                   dtl_text = None, dtlText = None\<rparr>"




definition sold_out_detail :: ustr where
  "sold_out_detail = asc ''11:00 to 14:00 (closed when sold out)''"


section \<open>Properties of the evaluation\<close>

lemma ebind_Inr_iff: "ebind x f = Inr y \<longleftrightarrow> (\<exists>v. x = Inr v \<and> f v = Inr y)"
  by (cases x) (simp_all add: ebind_def)

lemma ebind_Inr [simp]: "ebind (Inr v) f = f v"
  by (simp add: ebind_def)

lemma ebind_Inl [simp]: "ebind (Inl e) f = Inl e"
  by (simp add: ebind_def)

lemma calc_lo_in_ok:
  assumes "lo_times_ok lo"
  shows "\<exists>v. calc_lo_in lo crosses start en now_min = Inr v"
proof (cases "lo_truthy lo")
  case None
  then show ?thesis by (simp add: calc_lo_in_def)
next
  case (Some d)
  with assms obtain ts where "lo_times_of [generic d, food d, drinks d] = Inr ts"
    by (auto simp: lo_times_ok_def split: sum.splits)
  with Some show ?thesis
    by (cases ts) (simp_all add: calc_lo_in_def)
qed

lemma asc_Nil: "asc [] = []"
  by (simp add: asc_def)

lemma asc_Cons: "asc (c # cs) = of_char c # asc cs"
  by (simp add: asc_def)

lemmas time_eval_defs =
  asc_Nil asc_Cons to_minutes_def py_int_def int_strip_def is_int_space_def strip_def
  is_space_def is_digit_def

lemma to_minutes_2200: "to_minutes (asc ''22:00'') = Inr 1320"
  by (simp add: time_eval_defs)

lemma to_minutes_0200: "to_minutes (asc ''02:00'') = Inr 120"
  by (simp add: time_eval_defs)

lemma find_open_Cons_Some:
  assumes "find_open (b # bs) now_min = Inr (Some r)"
  obtains start "end" lo_in where
    "to_minutes (b_open b) = Inr start" "to_minutes (b_close b) = Inr end"
    "in_window_of (crosses_midnight b) start end now_min"
    "calc_lo_in (last_order b) (crosses_midnight b) start end now_min = Inr lo_in"
    "r = \<lparr>segment = \<lparr>seg_start = b_open b, seg_end = b_close b,
                                  seg_last_order = lo_truthy (last_order b)\<rparr>,
                      closes_in_min = Some (closes_in_of (crosses_midnight b) start end now_min),
                      lo_in_min = lo_in,
                      res_crosses_midnight = crosses_midnight b\<rparr>"
  | start "end" where
    "to_minutes (b_open b) = Inr start" "to_minutes (b_close b) = Inr end"
    "\<not> in_window_of (crosses_midnight b) start end now_min"
    "find_open bs now_min = Inr (Some r)"
proof -
  from assms obtain start where s: "to_minutes (b_open b) = Inr start"
    by (auto simp: ebind_Inr_iff)
  from assms s obtain en where e: "to_minutes (b_close b) = Inr en"
    by (auto simp: ebind_Inr_iff)
  show thesis
  proof (cases "in_window_of (crosses_midnight b) start en now_min")
    case True
    with assms s e obtain lo_in where
      "calc_lo_in (last_order b) (crosses_midnight b) start en now_min = Inr lo_in"
      and "r = \<lparr>segment = \<lparr>seg_start = b_open b, seg_end = b_close b,
                                  seg_last_order = lo_truthy (last_order b)\<rparr>,
                      closes_in_min = Some (closes_in_of (crosses_midnight b) start en now_min),
                      lo_in_min = lo_in,
                      res_crosses_midnight = crosses_midnight b\<rparr>"
      by (auto simp: ebind_Inr_iff)
    with s e True show thesis using that(1) by blast
  next
    case False
    with assms s e have "find_open bs now_min = Inr (Some r)"
      by simp
    with s e False show thesis using that(2) by blast
  qed
qed

lemma find_open_closes:
  "find_open bs now_min = Inr (Some r) \<Longrightarrow>
   \<exists>start end. to_minutes (seg_start (segment r)) = Inr start \<and>
        to_minutes (seg_end (segment r)) = Inr end \<and>
        closes_in_min r = Some (end - now_min + (if res_crosses_midnight r \<and> start \<le> now_min then 1440 else 0))"
proof (induction bs)
  case Nil
  then show ?case by simp
next
  case (Cons b bs)
  from Cons.prems show ?case
  proof (cases rule: find_open_Cons_Some)
    case (1 start en lo_in)
    then show ?thesis by (simp add: closes_in_of_def)
  next
    case (2 start en)
    then show ?thesis using Cons.IH by simp
  qed
qed

lemma calc_open_now_Open:
  assumes "calc_open_now day now = Inr (StatusOpen r)"
  shows "\<exists>bs. day = Blocks bs \<and> find_open bs (hour now * 60 + minute now) = Inr (Some r)"
proof (cases day)
  case Closed
  with assms show ?thesis by (simp add: calc_open_now_def)
next
  case (Blocks bs)
  show ?thesis
  proof (cases bs)
    case Nil
    with assms Blocks show ?thesis by (simp add: calc_open_now_def)
  next
    case (Cons c cs)
    with assms Blocks obtain found where
      f: "find_open bs (hour now * 60 + minute now) = Inr found"
      by (auto simp: calc_open_now_def ebind_Inr_iff)
    with assms Blocks Cons have "found = Some r"
      by (cases found) (auto simp: calc_open_now_def ebind_Inr_iff)
    with f Blocks show ?thesis by simp
  qed
qed

text \<open>
  Claim C1. A block with open 22:00, close 02:00 and \<open>crosses_midnight\<close> set, evaluated
  alone: at 01:00 the status is open with \<open>closes_in_min = 60\<close>, at 23:00 it is open with
  \<open>closes_in_min = 180\<close>, and at 10:00 it is closed. In general, whenever the evaluation
  returns status open, \<open>closes_in_min\<close> is the minutes from now until the close of the
  matched block, plus 1440 exactly when the block crosses midnight and now is at or after
  its open.
\<close>

theorem C1_midnight_block:
  assumes o: "b_open b = asc ''22:00''" and c: "b_close b = asc ''02:00''"
    and x: "crosses_midnight b" and lo: "lo_times_ok (last_order b)"
  shows "(\<exists>r. calc_open_now (Blocks [b]) \<lparr>hour = 1, minute = 0\<rparr> = Inr (StatusOpen r)
              \<and> closes_in_min r = Some 60)
       \<and> (\<exists>r. calc_open_now (Blocks [b]) \<lparr>hour = 23, minute = 0\<rparr> = Inr (StatusOpen r)
              \<and> closes_in_min r = Some 180)
       \<and> (\<exists>v. calc_open_now (Blocks [b]) \<lparr>hour = 10, minute = 0\<rparr> = Inr (StatusClosedOpens v))
       \<and> (calc_open_now day now = Inr (StatusOpen r) \<longrightarrow>
            (\<exists>start end.
               to_minutes (seg_start (segment r)) = Inr start \<and>
               to_minutes (seg_end (segment r)) = Inr end \<and>
               closes_in_min r =
                 Some (end - (hour now * 60 + minute now)
                       + (if res_crosses_midnight r \<and> start \<le> hour now * 60 + minute now
                          then 1440 else 0))))"
proof (intro conjI impI)
  obtain v1 where v1: "calc_lo_in (last_order b) True 1320 120 60 = Inr v1"
    using calc_lo_in_ok [OF lo] by blast
  show "\<exists>r. calc_open_now (Blocks [b]) \<lparr>hour = 1, minute = 0\<rparr> = Inr (StatusOpen r)
              \<and> closes_in_min r = Some 60"
    using v1 by (simp add: calc_open_now_def o c x to_minutes_2200 to_minutes_0200
        in_window_of_def closes_in_of_def)
next
  obtain v2 where v2: "calc_lo_in (last_order b) True 1320 120 1380 = Inr v2"
    using calc_lo_in_ok [OF lo] by blast
  show "\<exists>r. calc_open_now (Blocks [b]) \<lparr>hour = 23, minute = 0\<rparr> = Inr (StatusOpen r)
              \<and> closes_in_min r = Some 180"
    using v2 by (simp add: calc_open_now_def o c x to_minutes_2200 to_minutes_0200
        in_window_of_def closes_in_of_def)
next
  show "\<exists>v. calc_open_now (Blocks [b]) \<lparr>hour = 10, minute = 0\<rparr> = Inr (StatusClosedOpens v)"
    by (simp add: calc_open_now_def o c x to_minutes_2200 to_minutes_0200
        in_window_of_def)
next
  assume "calc_open_now day now = Inr (StatusOpen r)"
  then obtain bs where "find_open bs (hour now * 60 + minute now) = Inr (Some r)"
    using calc_open_now_Open by blast
  then show "\<exists>start end.
               to_minutes (seg_start (segment r)) = Inr start \<and>
               to_minutes (seg_end (segment r)) = Inr end \<and>
               closes_in_min r =
                 Some (end - (hour now * 60 + minute now)
                       + (if res_crosses_midnight r \<and> start \<le> hour now * 60 + minute now
                          then 1440 else 0))"
    by (rule find_open_closes)
qed

lemma late_block_at_eleven:
  "calc_open_now (Blocks [late_block]) eleven_pm = Inr (StatusOpen late_result)"
  by (simp add: calc_open_now_def late_block_def eleven_pm_def late_result_def
        to_minutes_2200 to_minutes_0200
        in_window_of_def closes_in_of_def calc_lo_in_def lo_truthy_def)

theorem C1_midnight_block_witness:
  "(\<exists>r. calc_open_now (Blocks [late_block]) \<lparr>hour = 1, minute = 0\<rparr> = Inr (StatusOpen r)
              \<and> closes_in_min r = Some 60)
   \<and> (\<exists>r. calc_open_now (Blocks [late_block]) \<lparr>hour = 23, minute = 0\<rparr> = Inr (StatusOpen r)
              \<and> closes_in_min r = Some 180)
   \<and> (\<exists>v. calc_open_now (Blocks [late_block]) \<lparr>hour = 10, minute = 0\<rparr> = Inr (StatusClosedOpens v))
   \<and> (\<exists>start end.
         to_minutes (seg_start (segment late_result)) = Inr start \<and>
         to_minutes (seg_end (segment late_result)) = Inr end \<and>
         closes_in_min late_result =
           Some (end - (hour eleven_pm * 60 + minute eleven_pm)
                 + (if res_crosses_midnight late_result \<and> start \<le> hour eleven_pm * 60 + minute eleven_pm
                    then 1440 else 0)))"
proof -
  have h: "b_open late_block = asc ''22:00''" "b_close late_block = asc ''02:00''"
    "crosses_midnight late_block" "lo_times_ok (last_order late_block)"
    by (simp_all add: late_block_def lo_times_ok_def lo_truthy_def)
  from C1_midnight_block [OF h, of "Blocks [late_block]" eleven_pm late_result]
    late_block_at_eleven
  show ?thesis by blast
qed

subsection \<open>The next opening\<close>

lemma find_open_none:
  "parsed_times bs ts \<Longrightarrow> none_in_window bs ts now_min \<Longrightarrow> find_open bs now_min = Inr None"
  unfolding parsed_times_def none_in_window_def
proof (induction bs ts rule: list_induct2')
  case 1
  then show ?case by simp
next
  case (2 x xs)
  then show ?case by simp
next
  case (3 y ys)
  then show ?case by simp
next
  case (4 b bs t ts)
  obtain st en where t: "t = (st, en)" by (cases t)
  from 4 t show ?case by simp
qed

lemma first_future_eq:
  "parsed_times bs ts \<Longrightarrow> first_future bs now_min = Inr (first_opens_in_min bs ts now_min)"
  unfolding parsed_times_def
proof (induction bs ts rule: list_induct2')
  case 1
  then show ?case by (simp add: first_opens_in_min_def future_opens_def)
next
  case (2 x xs)
  then show ?case by simp
next
  case (3 y ys)
  then show ?case by simp
next
  case (4 b bs t ts)
  obtain st en where t: "t = (st, en)" by (cases t)
  from 4 t show ?case
    by (simp add: first_opens_in_min_def future_opens_def)
qed

lemma sorted_first_is_min:
  "sorted cs \<Longrightarrow> (case cs of [] \<Rightarrow> None | c # _ \<Rightarrow> Some c) =
     (if cs = [] then None else Some (Min (set cs)))" for cs :: "int list"
proof (cases cs)
  case Nil
  then show ?thesis by simp
next
  case (Cons c cs')
  assume "sorted cs"
  with Cons have "\<forall>x\<in>set cs'. c \<le> x" by simp
  then have "Min (set (c # cs')) = c"
    by (intro Min_eqI) auto
  with Cons show ?thesis by simp
qed

text \<open>
  Claim C2, as amended. For a non-empty block list whose times parse and in which no
  block's window holds now, the evaluation returns status closed with \<open>opens_in_min\<close>
  equal to \<open>open - now\<close> of the first block in list order that is not carried and opens
  strictly after now, and null when there is none. It is the minimum over those blocks
  whenever they are listed in non-decreasing order of open.
\<close>

theorem C2_first_future_open:
  assumes "bs \<noteq> []" and "parsed_times bs ts" and "none_in_window bs ts (hour now * 60 + minute now)"
  shows "calc_open_now (Blocks bs) now =
           Inr (StatusClosedOpens (first_opens_in_min bs ts (hour now * 60 + minute now)))
       \<and> (sorted (future_opens bs ts (hour now * 60 + minute now)) \<longrightarrow>
            first_opens_in_min bs ts (hour now * 60 + minute now) =
            spec_opens_in_min bs ts (hour now * 60 + minute now))"
proof
  from assms(1) obtain c cs where bs: "bs = c # cs" by (cases bs) auto
  have "calc_open_now (Blocks bs) now =
      ebind (find_open bs (hour now * 60 + minute now)) (\<lambda>found.
            case found of
              Some r \<Rightarrow> Inr (StatusOpen r)
            | None \<Rightarrow>
                ebind (first_future bs (hour now * 60 + minute now)) (\<lambda>ff.
                  Inr (StatusClosedOpens ff)))"
    unfolding bs by (simp only: calc_open_now_def day_blocks.case list.case)
  also have "\<dots> = Inr (StatusClosedOpens (first_opens_in_min bs ts (hour now * 60 + minute now)))"
    by (simp add: find_open_none [OF assms(2,3)] first_future_eq [OF assms(2)])
  finally show "calc_open_now (Blocks bs) now =
           Inr (StatusClosedOpens (first_opens_in_min bs ts (hour now * 60 + minute now)))" .
next
  show "sorted (future_opens bs ts (hour now * 60 + minute now)) \<longrightarrow>
            first_opens_in_min bs ts (hour now * 60 + minute now) =
            spec_opens_in_min bs ts (hour now * 60 + minute now)"
    unfolding first_opens_in_min_def spec_opens_in_min_def
    using sorted_first_is_min by blast
qed

lemma dinner_lunch_parsed:
  "parsed_times [dinner_block, lunch_block] [(1080, 1320), (660, 840)]"
  by (simp add: parsed_times_def dinner_block_def lunch_block_def time_eval_defs)

lemma dinner_lunch_closed_at_ten:
  "none_in_window [dinner_block, lunch_block] [(1080, 1320), (660, 840)] 600"
  by (simp add: none_in_window_def dinner_block_def lunch_block_def in_window_of_def)

lemma ten_am_min: "hour ten_am * 60 + minute ten_am = 600"
  by (simp add: ten_am_def)

text \<open>
  The claim as stated takes the minimum regardless of list order. With dinner
  (18:00--22:00) listed before lunch (11:00--14:00), at 10:00 the code answers 480, the
  minimum is 60.
\<close>

theorem C2_min_counterexample:
  "parsed_times [dinner_block, lunch_block] [(1080, 1320), (660, 840)]
   \<and> none_in_window [dinner_block, lunch_block] [(1080, 1320), (660, 840)] 600
   \<and> calc_open_now (Blocks [dinner_block, lunch_block]) ten_am = Inr (StatusClosedOpens (Some 480))
   \<and> spec_opens_in_min [dinner_block, lunch_block] [(1080, 1320), (660, 840)] 600 = Some 60"
proof (intro conjI)
  show "calc_open_now (Blocks [dinner_block, lunch_block]) ten_am = Inr (StatusClosedOpens (Some 480))"
    by (simp add: calc_open_now_def ten_am_def dinner_block_def lunch_block_def time_eval_defs
        in_window_of_def)
  show "spec_opens_in_min [dinner_block, lunch_block] [(1080, 1320), (660, 840)] 600 = Some 60"
    by (simp add: spec_opens_in_min_def future_opens_def dinner_block_def lunch_block_def)
qed (rule dinner_lunch_parsed dinner_lunch_closed_at_ten)+

theorem C2_first_future_open_witness:
  "calc_open_now (Blocks [lunch_block, dinner_block]) ten_am = Inr (StatusClosedOpens (Some 60))
   \<and> spec_opens_in_min [lunch_block, dinner_block] [(660, 840), (1080, 1320)] 600 = Some 60"
proof -
  have p: "parsed_times [lunch_block, dinner_block] [(660, 840), (1080, 1320)]"
    by (simp add: parsed_times_def dinner_block_def lunch_block_def time_eval_defs)
  have n: "none_in_window [lunch_block, dinner_block] [(660, 840), (1080, 1320)] (hour ten_am * 60 + minute ten_am)"
    by (simp add: ten_am_min none_in_window_def dinner_block_def lunch_block_def in_window_of_def)
  have f: "future_opens [lunch_block, dinner_block] [(660, 840), (1080, 1320)] 600 = [60, 480]"
    by (simp add: future_opens_def dinner_block_def lunch_block_def)
  have s: "sorted (future_opens [lunch_block, dinner_block] [(660, 840), (1080, 1320)] (hour ten_am * 60 + minute ten_am))"
    by (simp add: ten_am_min f)
  have g: "first_opens_in_min [lunch_block, dinner_block] [(660, 840), (1080, 1320)] 600 = Some 60"
    by (simp add: first_opens_in_min_def f)
  from C2_first_future_open [OF _ p n] s g show ?thesis
    by (simp add: ten_am_min)
qed

subsection \<open>The last-order countdown\<close>

lemma to_minutes_2230: "to_minutes (asc ''22:30'') = Inr 1350"
  by (simp add: time_eval_defs)

lemma late_lo_block_at_eleven:
  "calc_open_now (Blocks [late_lo_block]) eleven_pm = Inr (StatusOpen late_lo_result)"
  by (simp add: calc_open_now_def late_lo_block_def eleven_pm_def late_lo_result_def
        time_eval_defs in_window_of_def closes_in_of_def calc_lo_in_def lo_truthy_def lo_is_empty_def
        lo_in_of_def min_list_int_def)

lemma late_lo_block_after_midnight:
  "calc_open_now (Blocks [late_lo_block]) half_past_midnight =
     Inr (StatusOpen late_lo_result_after)"
  by (simp add: calc_open_now_def late_lo_block_def half_past_midnight_def
        late_lo_result_after_def time_eval_defs in_window_of_def closes_in_of_def calc_lo_in_def
        lo_truthy_def lo_is_empty_def lo_in_of_def min_list_int_def)

text \<open>
  Claim C3 at a 22:00--02:00 block with a last order at 22:30. The claim makes
  \<open>lo_in_min\<close> null whenever the deadline has passed. At 00:30, after midnight, the
  deadline of the evening before has passed, and the code reports 1320 minutes to go:
  the branch for now before open tests only \<open>lo_t \<ge> now\<close>. At 23:00, before midnight,
  the deadline has passed as well, and the code reports 0, where the other two branches
  return null for a passed deadline.
\<close>

theorem C3_passed_deadline_not_null:
  "to_minutes (asc ''22:30'') = Inr 1350
   \<and> hour half_past_midnight * 60 + minute half_past_midnight = 30
   \<and> calc_open_now (Blocks [late_lo_block]) half_past_midnight =
       Inr (StatusOpen late_lo_result_after)
   \<and> lo_in_min late_lo_result_after = Some 1320
   \<and> hour eleven_pm * 60 + minute eleven_pm = 1380
   \<and> calc_open_now (Blocks [late_lo_block]) eleven_pm = Inr (StatusOpen late_lo_result)
   \<and> lo_in_min late_lo_result = Some 0"
  by (simp add: to_minutes_2230 late_lo_block_at_eleven late_lo_block_after_midnight)
     (simp add: eleven_pm_def half_past_midnight_def late_lo_result_def late_lo_result_after_def)

section \<open>Properties of the time-range extractor\<close>

lemmas rx_eval_defs =
  asc_Nil asc_Cons is_space_def is_digit_def lower_char_def lower_def strip_def
  chr_def chr_i_def digit_def time_rx_def RANGE_RE_def LO_RE_def
  search_def rmatch_def re_sub_def the_group_def ranges_of_def los_of_def

lemmas parse_eval_defs =
  parse_time_ranges_def norm_def rx_eval_defs crosses_midnight_of_def to_minutes_def py_int_def
  int_strip_def is_int_space_def
  lo_is_empty_def lo_empty_def block_last_order_def in_window_def

lemma parse_1700_2600:
  "parse_time_ranges (asc ''17:00-26:00'') =
   Inr [\<lparr>b_open = asc ''17:00'', b_close = asc ''26:00'', crosses_midnight = False,
         last_order = None, carried_from_prev = False\<rparr>]"
  by (simp add: parse_eval_defs)

lemma parse_1700_2400:
  "parse_time_ranges (asc ''17:00-24:00'') =
   Inr [\<lparr>b_open = asc ''17:00'', b_close = asc ''24:00'', crosses_midnight = True,
         last_order = None, carried_from_prev = False\<rparr>]"
  by (simp add: parse_eval_defs)

text \<open>
  The claim as stated has \<^verbatim>\<open>17:00-26:00\<close> rejected with no block. The pattern takes any
  one or two digits as the hour, so the range is extracted.
\<close>

theorem C5_hour_26_counterexample:
  "parse_time_ranges (asc ''17:00-26:00'') \<noteq> Inr []"
  by (simp add: parse_1700_2600)

text \<open>
  Claim C5, as amended. The extractor accepts \<^verbatim>\<open>17:00-26:00\<close>: it yields one block with
  open 17:00 and close 26:00, whose close is 1560 minutes, not crossing midnight. It
  accepts \<^verbatim>\<open>17:00-24:00\<close>: one block whose close 24:00 is 0 minutes and which crosses
  midnight, 0 being at most the 1020 minutes of 17:00.
\<close>

theorem C5_hours_not_validated:
  "parse_time_ranges (asc ''17:00-26:00'') =
     Inr [\<lparr>b_open = asc ''17:00'', b_close = asc ''26:00'', crosses_midnight = False,
           last_order = None, carried_from_prev = False\<rparr>]
   \<and> to_minutes (asc ''26:00'') = Inr 1560
   \<and> parse_time_ranges (asc ''17:00-24:00'') =
     Inr [\<lparr>b_open = asc ''17:00'', b_close = asc ''24:00'', crosses_midnight = True,
           last_order = None, carried_from_prev = False\<rparr>]
   \<and> to_minutes (asc ''24:00'') = Inr 0
   \<and> to_minutes (asc ''17:00'') = Inr 1020"
  by (simp add: parse_1700_2600 parse_1700_2400) (simp add: time_eval_defs)

subsection \<open>Last-order windows\<close>

lemma assign_los_last_time:
  "assign_los rs nxt los d =
     \<lparr>generic = (case last_time Generic (markers_in (rs, nxt) los) of
                   None \<Rightarrow> generic d | Some t \<Rightarrow> Some t),
      food = (case last_time Food (markers_in (rs, nxt) los) of
                None \<Rightarrow> food d | Some t \<Rightarrow> Some t),
      drinks = (case last_time Drinks (markers_in (rs, nxt) los) of
                  None \<Rightarrow> drinks d | Some t \<Rightarrow> Some t)\<rparr>"
proof (induction los arbitrary: d)
  case Nil
  then show ?case by (simp add: markers_in_def)
next
  case (Cons m los)
  obtain p k t where m: "m = (p, k, t)" by (cases m)
  show ?case
  proof (cases "in_window rs nxt p")
    case False
    then show ?thesis
      unfolding m using Cons.IH by (simp add: markers_in_def)
  next
    case True
    show ?thesis
    proof (cases k)
      case None
      with True show ?thesis
        unfolding m using Cons.IH
        by (simp add: markers_in_def kind_of_def split: option.splits)
    next
      case (Some q)
      with True show ?thesis
        unfolding m using Cons.IH
        by (simp add: markers_in_def kind_of_def split: option.splits)
    qed
  qed
qed

lemma last_time_none_all:
  "last_time Generic ms = None \<and> last_time Food ms = None \<and> last_time Drinks ms = None
   \<longleftrightarrow> ms = []"
proof (cases ms)
  case Nil
  then show ?thesis by simp
next
  case (Cons m ms')
  obtain p k t where m: "m = (p, k, t)" by (cases m)
  have "last_time (kind_of k) (m # ms') \<noteq> None"
    unfolding m by (simp split: option.splits)
  then show ?thesis
    using Cons by (cases "kind_of k") auto
qed

lemma block_last_order_window:
  "block_last_order rs nxt los = window_last_order (markers_in (rs, nxt) los)"
proof (cases "markers_in (rs, nxt) los = []")
  case True
  then show ?thesis
    by (simp add: block_last_order_def assign_los_last_time window_last_order_def
        lo_is_empty_def lo_empty_def)
next
  case False
  with last_time_none_all [of "markers_in (rs, nxt) los"]
  have "\<not> lo_is_empty (assign_los rs nxt los lo_empty)"
    by (auto simp: assign_los_last_time lo_is_empty_def lo_empty_def split: option.splits)
  with False show ?thesis
    by (simp add: window_last_order_def block_last_order_def)
       (simp add: assign_los_last_time lo_empty_def split: option.splits)
qed

lemma blocks_of_Cons:
  assumes "blocks_of ((rs, re, s, e) # ranges) los = Inr blocks"
  obtains crosses bs where
    "crosses_midnight_of s e = Inr crosses"
    "blocks_of ranges los = Inr bs"
    "blocks = \<lparr>b_open = s, b_close = e, crosses_midnight = crosses,
               last_order = block_last_order rs
                  (case ranges of [] \<Rightarrow> None | (n, _) # _ \<Rightarrow> Some n) los,
               carried_from_prev = False\<rparr> # bs"
  using assms by (auto simp: ebind_Inr_iff)

lemma blocks_of_windows:
  "blocks_of ranges los = Inr blocks \<Longrightarrow>
     map b_open blocks = map (\<lambda>(rs, re, s, e). s) ranges \<and>
     map b_close blocks = map (\<lambda>(rs, re, s, e). e) ranges \<and>
     map last_order blocks =
       map (\<lambda>w. window_last_order (markers_in w los)) (windows ranges)"
proof (induction ranges arbitrary: blocks rule: windows.induct)
  case 1
  then show ?case by simp
next
  case (2 rs re s e)
  from "2.prems" show ?case
  proof (rule blocks_of_Cons)
    fix crosses bs
    assume "blocks_of [] los = Inr bs"
      and "blocks = \<lparr>b_open = s, b_close = e, crosses_midnight = crosses,
               last_order = block_last_order rs
                  (case [] of [] \<Rightarrow> None | (n, _) # _ \<Rightarrow> Some n) los,
               carried_from_prev = False\<rparr> # bs"
    then show ?thesis
      by (simp add: block_last_order_window)
  qed
next
  case (3 rs re s e n r' ranges)
  from "3.prems" show ?case
  proof (rule blocks_of_Cons)
    fix crosses bs
    assume bs: "blocks_of ((n, r') # ranges) los = Inr bs"
      and "blocks = \<lparr>b_open = s, b_close = e, crosses_midnight = crosses,
               last_order = block_last_order rs
                  (case (n, r') # ranges of [] \<Rightarrow> None | (n, _) # _ \<Rightarrow> Some n) los,
               carried_from_prev = False\<rparr> # bs"
    with "3.IH" [OF bs] show ?thesis
      by (simp add: block_last_order_window del: blocks_of.simps)
  qed
qed

lemma norm_lo_example: "norm lo_example = lo_example"
  by (simp add: lo_example_def norm_def rx_eval_defs)

lemma lo_example_ranges:
  "ranges_of lo_example =
     [(0, 11, asc ''11:30'', asc ''14:00''), (23, 34, asc ''17:30'', asc ''22:00'')]"
  by (simp add: lo_example_def rx_eval_defs)

lemma lo_example_los:
  "los_of lo_example =
     [(13, None, asc ''13:30''), (36, Some (asc ''food''), asc ''21:00''),
      (52, Some (asc ''drink''), asc ''21:30'')]"
  by (simp add: lo_example_def rx_eval_defs)

lemma parse_lo_example:
  "parse_time_ranges lo_example =
   Inr [\<lparr>b_open = asc ''11:30'', b_close = asc ''14:00'', crosses_midnight = False,
         last_order = Some \<lparr>generic = Some (asc ''13:30''), food = None, drinks = None\<rparr>,
         carried_from_prev = False\<rparr>,
        \<lparr>b_open = asc ''17:30'', b_close = asc ''22:00'', crosses_midnight = False,
         last_order = Some \<lparr>generic = None, food = Some (asc ''21:00''), drinks = Some (asc ''21:30'')\<rparr>,
         carried_from_prev = False\<rparr>]"
  unfolding parse_time_ranges_def norm_lo_example lo_example_ranges lo_example_los
  by (simp add: asc_Nil asc_Cons crosses_midnight_of_def to_minutes_def py_int_def strip_def
      int_strip_def is_int_space_def
      is_space_def is_digit_def lo_is_empty_def lo_empty_def block_last_order_def in_window_def)

text \<open>
  Claim C6. For every detail string that the extractor returns blocks for, there is one
  block per range, in order, with the range's open and close, and the block's
  \<open>last_order\<close> is made of exactly the markers whose position lies in the range's
  window, from its start up to but excluding the next range's start: the latest marker of
  each kind wins, different kinds coexist, and a range without markers has no
  \<open>last_order\<close>. The example string yields two blocks, the first with generic 13:30, the
  second with food 21:00 and drinks 21:30.
\<close>

theorem C6_last_order_windows:
  "(parse_time_ranges text = Inr blocks \<longrightarrow>
      map b_open blocks = map (\<lambda>(rs, re, s, e). s) (ranges_of (norm text)) \<and>
      map b_close blocks = map (\<lambda>(rs, re, s, e). e) (ranges_of (norm text)) \<and>
      map last_order blocks =
        map (\<lambda>w. window_last_order (markers_in w (los_of (norm text))))
          (windows (ranges_of (norm text))))
   \<and> parse_time_ranges lo_example =
       Inr [\<lparr>b_open = asc ''11:30'', b_close = asc ''14:00'', crosses_midnight = False,
             last_order = Some \<lparr>generic = Some (asc ''13:30''), food = None, drinks = None\<rparr>,
             carried_from_prev = False\<rparr>,
            \<lparr>b_open = asc ''17:30'', b_close = asc ''22:00'', crosses_midnight = False,
             last_order = Some \<lparr>generic = None, food = Some (asc ''21:00''),
                                  drinks = Some (asc ''21:30'')\<rparr>,
             carried_from_prev = False\<rparr>]"
proof (intro conjI impI)
  assume "parse_time_ranges text = Inr blocks"
  then have "blocks_of (ranges_of (norm text)) (los_of (norm text)) = Inr blocks"
    by (simp add: parse_time_ranges_def)
  from blocks_of_windows [OF this]
  show "map b_open blocks = map (\<lambda>(rs, re, s, e). s) (ranges_of (norm text))"
    and "map b_close blocks = map (\<lambda>(rs, re, s, e). e) (ranges_of (norm text))"
    and "map last_order blocks =
        map (\<lambda>w. window_last_order (markers_in w (los_of (norm text))))
          (windows (ranges_of (norm text)))"
    by blast+
qed (rule parse_lo_example)

theorem C6_last_order_windows_witness:
  "windows (ranges_of (norm lo_example)) = [(0, Some 23), (23, None)]
   \<and> markers_in (0, Some 23) (los_of (norm lo_example)) = [(13, None, asc ''13:30'')]
   \<and> markers_in (23, None) (los_of (norm lo_example)) =
       [(36, Some (asc ''food''), asc ''21:00''), (52, Some (asc ''drink''), asc ''21:30'')]
   \<and> map last_order
       [\<lparr>b_open = asc ''11:30'', b_close = asc ''14:00'', crosses_midnight = False,
         last_order = Some \<lparr>generic = Some (asc ''13:30''), food = None, drinks = None\<rparr>,
         carried_from_prev = False\<rparr>,
        \<lparr>b_open = asc ''17:30'', b_close = asc ''22:00'', crosses_midnight = False,
         last_order = Some \<lparr>generic = None, food = Some (asc ''21:00''),
                              drinks = Some (asc ''21:30'')\<rparr>,
         carried_from_prev = False\<rparr>] =
     map (\<lambda>w. window_last_order (markers_in w (los_of (norm lo_example))))
          (windows (ranges_of (norm lo_example)))"
proof -
  have w: "windows (ranges_of (norm lo_example)) = [(0, Some 23), (23, None)]"
    by (simp add: norm_lo_example lo_example_ranges lo_example_los)
  have f1: "markers_in (0, Some 23) (los_of (norm lo_example)) = [(13, None, asc ''13:30'')]"
    by (simp add: norm_lo_example lo_example_ranges lo_example_los markers_in_def in_window_def)
  have f2: "markers_in (23, None) (los_of (norm lo_example)) =
       [(36, Some (asc ''food''), asc ''21:00''), (52, Some (asc ''drink''), asc ''21:30'')]"
    by (simp add: norm_lo_example lo_example_ranges lo_example_los markers_in_def in_window_def)
  from C6_last_order_windows [of lo_example, THEN conjunct1, rule_format, OF parse_lo_example]
  have "map last_order
       [\<lparr>b_open = asc ''11:30'', b_close = asc ''14:00'', crosses_midnight = False,
         last_order = Some \<lparr>generic = Some (asc ''13:30''), food = None, drinks = None\<rparr>,
         carried_from_prev = False\<rparr>,
        \<lparr>b_open = asc ''17:30'', b_close = asc ''22:00'', crosses_midnight = False,
         last_order = Some \<lparr>generic = None, food = Some (asc ''21:00''),
                              drinks = Some (asc ''21:30'')\<rparr>,
         carried_from_prev = False\<rparr>] =
     map (\<lambda>w. window_last_order (markers_in w (los_of (norm lo_example))))
          (windows (ranges_of (norm lo_example)))"
    by blast
  with w f1 f2 show ?thesis by blast
qed

section \<open>Properties of the normalizer and the builder\<close>

lemma rep_3_9: "rep 3 9 r = Cat (Cat r (Cat r (Cat r Eps)))
   (Opt (Cat r (Opt (Cat r (Opt (Cat r (Opt (Cat r (Opt (Cat r (Opt (Cat r Eps))))))))))))"
  by (simp add: rep_def eval_nat_numeral)

lemmas day_eval_defs =
  split_and_normalize_days_def chunk_step_def DAY_ALIASES_def SPECIAL_KEYS_def DAY_ORDER_def
  DAY_RANGE_RE_def rep_3_9 resolve_day_def expand_range_def special_empty_def
  is_alpha_def rx_eval_defs

lemma days_Mon: "split_and_normalize_days (asc ''Mon'') = ([asc ''mon''], special_empty)"
  by (simp add: day_eval_defs)

lemma days_Year_end: "split_and_normalize_days (asc ''Year-end'') = ([], special_empty)"
  by (simp add: day_eval_defs)


lemmas closed_eval_defs =
  explicit_closed_def asc_Nil asc_Cons is_space_def is_digit_def lower_char_def lower_def
  strip_def chr_def digit_def time_rx_def RANGE_RE_def search_def

lemma closed_Closed: "explicit_closed (asc ''Closed'')"
  by (simp add: closed_eval_defs)

lemma closed_1100_1400: "\<not> explicit_closed (asc ''11:00-14:00'')"
  by (simp add: closed_eval_defs)


lemma parse_1100_1400:
  "parse_time_ranges (asc ''11:00-14:00'') =
   Inr [\<lparr>b_open = asc ''11:00'', b_close = asc ''14:00'', crosses_midnight = False,
         last_order = None, carried_from_prev = False\<rparr>]"
  by (simp add: parse_eval_defs)


lemma entry_of_title [simp]: "entry_title (entry_of t d) = (if t = [] then [] else asc t)"
  by (cases t) (simp_all add: entry_title_def entry_of_def asc_Nil asc_Cons)

lemma entry_of_dtl [simp]: "entry_dtl (entry_of t d) = (if d = [] then [] else asc d)"
  by (cases d) (simp_all add: entry_dtl_def entry_of_def asc_Nil asc_Cons)

lemma weekly_init_mon: "weekly_init (asc ''mon'') = Some (Blocks [])"
  by (simp add: weekly_init_def DAY_ORDER_def asc_Nil asc_Cons)

subsection \<open>Closed is absorbing\<close>

lemma close_days_closed: "w d = Some Closed \<Longrightarrow> close_days days w d = Some Closed"
  by (induction days arbitrary: w) simp_all

lemma extend_days_closed:
  "extend_days days blocks w = Inr w' \<Longrightarrow> w d = Some Closed \<Longrightarrow> w' d = Some Closed"
proof (induction days arbitrary: w)
  case Nil
  then show ?case by simp
next
  case (Cons day days)
  show ?case
  proof (cases "w day")
    case None
    with Cons.prems show ?thesis by simp
  next
    case (Some v)
    show ?thesis
    proof (cases v)
      case Closed
      with Some Cons show ?thesis by simp
    next
      case (Blocks bs)
      with Some Cons.prems have
        "extend_days days blocks (w(day \<mapsto> Blocks (bs @ blocks))) = Inr w'" by simp
      moreover from Some Blocks Cons.prems have "(w(day \<mapsto> Blocks (bs @ blocks))) d = Some Closed"
        by auto
      ultimately show ?thesis by (rule Cons.IH)
    qed
  qed
qed

lemma entry_step_closed:
  assumes "entry_step entry st = Inr st'" and "fst st d = Some Closed"
  shows "fst st' d = Some Closed"
proof (cases "explicit_closed (entry_dtl entry)")
  case True
  with assms show ?thesis
    by (auto simp: entry_step_def close_days_closed)
next
  case False
  with assms obtain blocks w where
    "extend_days (fst (split_and_normalize_days (entry_title entry))) blocks (fst st) = Inr w"
    and "fst st' = w"
    by (auto simp: entry_step_def ebind_Inr_iff)
  with assms(2) show ?thesis
    using extend_days_closed by blast
qed

lemma run_entries_closed:
  "run_entries entries st = Inr st' \<Longrightarrow> fst st d = Some Closed \<Longrightarrow> fst st' d = Some Closed"
proof (induction entries arbitrary: st)
  case Nil
  then show ?case by simp
next
  case (Cons entry entries)
  from Cons.prems(1) obtain st1 where
    s: "entry_step entry st = Inr st1" and r: "run_entries entries st1 = Inr st'"
    by (auto simp: ebind_Inr_iff)
  from entry_step_closed [OF s Cons.prems(2)] have "fst st1 d = Some Closed" .
  with r show ?case by (rule Cons.IH)
qed

lemma run_entries_append:
  "run_entries (es1 @ es2) st = ebind (run_entries es1 st) (run_entries es2)"
proof (induction es1 arbitrary: st)
  case Nil
  then show ?case by simp
next
  case (Cons e es1)
  then show ?case by (cases "entry_step e st") simp_all
qed

lemma step_Mon_Closed:
  "entry_step (entry_of ''Mon'' ''Closed'') (weekly_init, exceptions_init) =
     Inr (weekly_init(asc ''mon'' \<mapsto> Closed), exceptions_init)"
  by (simp add: entry_step_def closed_Closed days_Mon)

lemma step_Mon_lunch:
  "entry_step (entry_of ''Mon'' ''11:00-14:00'') (weekly_init(asc ''mon'' \<mapsto> Closed), exceptions_init) =
     Inr (weekly_init(asc ''mon'' \<mapsto> Closed), exceptions_init)"
  by (simp add: entry_step_def closed_1100_1400 days_Mon parse_1100_1400 SPECIAL_KEYS_def
      special_empty_def opaque_titles_def exceptions_init_def)

text \<open>
  Claim C4. Closed is absorbing: an entry leaves a weekday that is Closed Closed, and so
  does the rest of a build pass: if the day is Closed after the earlier entries, it is
  Closed in the result of the whole list. For the entries (Mon, Closed),
  (Mon, 11:00-14:00) the schedule of Mon is Closed.
\<close>

theorem C4_closed_is_absorbing:
  "(entry_step entry st = Inr st' \<and> fst st day = Some Closed \<longrightarrow> fst st' day = Some Closed)
   \<and> (run_entries earlier (weekly_init, exceptions_init) = Inr st1 \<and> fst st1 day = Some Closed
        \<and> build_schedule_fixed (earlier @ later) notes_structured = Inr st2
      \<longrightarrow> fst st2 day = Some Closed)
   \<and> result_day (build_schedule_fixed
        [entry_of ''Mon'' ''Closed'', entry_of ''Mon'' ''11:00-14:00''] None) (asc ''mon'')
      = Inr (Some Closed)"
proof (intro conjI impI)
  assume "entry_step entry st = Inr st' \<and> fst st day = Some Closed"
  then show "fst st' day = Some Closed"
    using entry_step_closed by blast
next
  assume a: "run_entries earlier (weekly_init, exceptions_init) = Inr st1
     \<and> fst st1 day = Some Closed
     \<and> build_schedule_fixed (earlier @ later) notes_structured = Inr st2"
  show "fst st2 day = Some Closed"
  proof (cases "earlier @ later = []")
    case True
    with a have "st2 = st1"
      by (auto simp: build_schedule_fixed_def)
    with a show ?thesis by simp
  next
    case False
    with a obtain st3 where
      r: "run_entries (earlier @ later) (weekly_init, exceptions_init) = Inr st3"
      and f: "fst st2 = fst st3"
      by (auto simp: build_schedule_fixed_def ebind_Inr_iff)
    from r a have "run_entries later st1 = Inr st3"
      by (simp add: run_entries_append)
    with a have "fst st3 day = Some Closed"
      using run_entries_closed by blast
    with f show ?thesis by simp
  qed
next
  show "result_day (build_schedule_fixed
        [entry_of ''Mon'' ''Closed'', entry_of ''Mon'' ''11:00-14:00''] None) (asc ''mon'')
      = Inr (Some Closed)"
    by (simp add: build_schedule_fixed_def step_Mon_Closed step_Mon_lunch result_day_def)
qed

theorem C4_closed_is_absorbing_witness:
  "run_entries [entry_of ''Mon'' ''Closed''] (weekly_init, exceptions_init)
     = Inr (weekly_init(asc ''mon'' \<mapsto> Closed), exceptions_init)
   \<and> build_schedule_fixed ([entry_of ''Mon'' ''Closed''] @ [entry_of ''Mon'' ''11:00-14:00'']) None
     = Inr (weekly_init(asc ''mon'' \<mapsto> Closed), exceptions_init)
   \<and> fst (weekly_init(asc ''mon'' \<mapsto> Closed), exceptions_init) (asc ''mon'') = Some Closed"
proof -
  have r: "run_entries [entry_of ''Mon'' ''Closed''] (weekly_init, exceptions_init)
     = Inr (weekly_init(asc ''mon'' \<mapsto> Closed), exceptions_init)"
    by (simp add: step_Mon_Closed)
  have b: "build_schedule_fixed ([entry_of ''Mon'' ''Closed''] @ [entry_of ''Mon'' ''11:00-14:00'']) None
     = Inr (weekly_init(asc ''mon'' \<mapsto> Closed), exceptions_init)"
    by (simp add: build_schedule_fixed_def step_Mon_Closed step_Mon_lunch add_closed_on_def)
  have c: "fst (weekly_init(asc ''mon'' \<mapsto> Closed), exceptions_init) (asc ''mon'') = Some Closed"
    by simp
  from C4_closed_is_absorbing [of "entry_of ''Mon'' ''11:00-14:00''"
      "(weekly_init(asc ''mon'' \<mapsto> Closed), exceptions_init)"
      "(weekly_init(asc ''mon'' \<mapsto> Closed), exceptions_init)" "asc ''mon''"
      "[entry_of ''Mon'' ''Closed'']" "(weekly_init(asc ''mon'' \<mapsto> Closed), exceptions_init)"
      "[entry_of ''Mon'' ''11:00-14:00'']" None
      "(weekly_init(asc ''mon'' \<mapsto> Closed), exceptions_init)"]
    r b c
  show ?thesis by blast
qed

subsection \<open>Explicit-closed detection\<close>

lemma closed_sold_out: "explicit_closed sold_out_detail"
  by (simp add: sold_out_detail_def closed_eval_defs)

lemma parse_sold_out:
  "parse_time_ranges sold_out_detail =
   Inr [\<lparr>b_open = asc ''11:00'', b_close = asc ''14:00'', crosses_midnight = False,
         last_order = None, carried_from_prev = False\<rparr>]"
  by (simp add: sold_out_detail_def parse_eval_defs)

lemma entry_dtl_sold_out:
  "entry_dtl \<lparr>title = Some (asc ''Mon''), list_title = None, dtl = Some sold_out_detail,
              dtl_text = None, dtlText = None\<rparr> = sold_out_detail"
  by (simp add: entry_dtl_def sold_out_detail_def asc_Cons)

lemma entry_title_Mon:
  "entry_title \<lparr>title = Some (asc ''Mon''), list_title = None, dtl = Some sold_out_detail,
              dtl_text = None, dtlText = None\<rparr> = asc ''Mon''"
  by (simp add: entry_title_def asc_Cons)

text \<open>
  Claim C8 at the detail \<^verbatim>\<open>11:00 to 14:00 (closed when sold out)\<close>. The extractor, which
  normalizes the word \<^verbatim>\<open>to\<close> to a hyphen, finds the range 11:00--14:00 in it; the
  explicit-closed test searches the detail without that normalization, finds no range,
  and the entry sets Mon to Closed.
\<close>

theorem C8_closed_test_skips_normalization:
  "explicit_closed sold_out_detail
   \<and> parse_time_ranges sold_out_detail =
       Inr [\<lparr>b_open = asc ''11:00'', b_close = asc ''14:00'', crosses_midnight = False,
             last_order = None, carried_from_prev = False\<rparr>]
   \<and> result_day (build_schedule_fixed
        [\<lparr>title = Some (asc ''Mon''), list_title = None, dtl = Some sold_out_detail,
          dtl_text = None, dtlText = None\<rparr>] None) (asc ''mon'')
      = Inr (Some Closed)"
proof (intro conjI)
  show "result_day (build_schedule_fixed
        [\<lparr>title = Some (asc ''Mon''), list_title = None, dtl = Some sold_out_detail,
          dtl_text = None, dtlText = None\<rparr>] None) (asc ''mon'')
      = Inr (Some Closed)"
    by (simp add: build_schedule_fixed_def entry_step_def entry_dtl_sold_out entry_title_Mon
        closed_sold_out days_Mon result_day_def)
qed (rule closed_sold_out parse_sold_out)+

subsection \<open>Opaque titles\<close>

lemma step_Year_end:
  "entry_step (entry_of ''Year-end'' ''11:00-14:00'') (weekly_init, exceptions_init) =
     Inr (weekly_init, exceptions_init)"
  by (simp add: entry_step_def closed_1100_1400 days_Year_end parse_1100_1400 SPECIAL_KEYS_def
      special_empty_def opaque_titles_def exceptions_init_def)

text \<open>
  Claim C9 at the title \<^verbatim>\<open>Year-end\<close>. The chunk is no day name, no special phrase and no
  range of days, yet it has the shape of a range, and the normalizer returns no weekday
  and no opaque title for it: the chunk is dropped, and an entry with that title adds
  nothing to the policies.
\<close>

theorem C9_range_shaped_chunk_dropped:
  "split_and_normalize_days (asc ''Year-end'') = ([], special_empty)
   \<and> raw_titles special_empty = None
   \<and> result_policies (build_schedule_fixed [entry_of ''Year-end'' ''11:00-14:00''] None) = Inr []"
  by (simp add: days_Year_end build_schedule_fixed_def step_Year_end result_policies_def
      add_closed_on_def)
     (simp add: special_empty_def exceptions_init_def)

lemma sorted_Irregular: "sorted_list_of_set {asc ''Irregular''} = [asc ''Irregular'']"
  by simp











subsection \<open>Day ranges\<close>




























end
